theory Spec2Isabelle
  imports Main "HOL-Library.Char_ord" "HOL-Library.List_Lexorder"
begin

section \<open>Python values\<close>

text \<open>
  The template is JSON data: what \<^verbatim>\<open>json.loads\<close> returns and \<^verbatim>\<open>json.dumps\<close> accepts.
  A dict is an association list in insertion order (Python dicts keep it, and so does
  \<^verbatim>\<open>json.dumps\<close>); a key is looked up at its first binding. Numbers are Python's
  unbounded integers; JSON numbers with a fraction are not part of the model.
  A string is a list of 8-bit characters, each read as the code point of that number.
\<close>

datatype json =
    JNull
  | JBool bool
  | JInt int
  | JStr string
  | JList "json list"
  | JDict "(string \<times> json) list"

text \<open>
  \<open>ValueError\<close> carries the message the source raises it with. The other errors are
  raised by the interpreter or by the \<^verbatim>\<open>json\<close> and \<^verbatim>\<open>sqlite3\<close> modules:
  \<open>ProgrammingError\<close> is \<^verbatim>\<open>sqlite3\<close> refusing to bind a list or a dict.
\<close>

datatype error =
    ValueError string
  | JSONDecodeError
  | TypeError
  | AttributeError
  | OverflowError
  | ProgrammingError

text \<open>\<^verbatim>\<open>d.get(k, default)\<close>, \<^verbatim>\<open>k in d\<close> and \<^verbatim>\<open>d.setdefault(k, v)\<close>.\<close>

definition dict_get :: "(string \<times> json) list \<Rightarrow> string \<Rightarrow> json \<Rightarrow> json" where
  "dict_get d k dflt = (case map_of d k of None \<Rightarrow> dflt | Some v \<Rightarrow> v)"

definition has_key :: "string \<Rightarrow> (string \<times> json) list \<Rightarrow> bool" where
  "has_key k d = (k \<in> set (map fst d))"

definition setdefault :: "string \<Rightarrow> json \<Rightarrow> (string \<times> json) list \<Rightarrow> (string \<times> json) list" where
  "setdefault k v d = (if has_key k d then d else d @ [(k, v)])"

text \<open>Truth value of a JSON value, as \<^verbatim>\<open>or\<close> tests it.\<close>

fun truthy :: "json \<Rightarrow> bool" where
  "truthy JNull = False"
| "truthy (JBool b) = b"
| "truthy (JInt n) = (n \<noteq> 0)"
| "truthy (JStr s) = (s \<noteq> [])"
| "truthy (JList xs) = (xs \<noteq> [])"
| "truthy (JDict d) = (d \<noteq> [])"

subsection \<open>Strings\<close>

text \<open>Decimal digits of a natural number, and \<^verbatim>\<open>str\<close> of an integer.\<close>

fun digits :: "nat \<Rightarrow> string" where
  "digits n = (if n < 10 then [''0123456789'' ! n]
               else digits (n div 10) @ [''0123456789'' ! (n mod 10)])"

declare digits.simps [simp del]

definition str_int :: "int \<Rightarrow> string" where
  "str_int i = (if i < 0 then ''-'' @ digits (nat (- i)) else digits (nat i))"

text \<open>
  \<^verbatim>\<open>str.strip()\<close> removes white space at both ends. Below code point 256 Python's
  white space is 9 to 13, 28 to 32, 133 and 160.
\<close>

definition isspace :: "char \<Rightarrow> bool" where
  "isspace c = (let n = (of_char c :: nat) in
     (9 \<le> n \<and> n \<le> 13) \<or> (28 \<le> n \<and> n \<le> 32) \<or> n = 133 \<or> n = 160)"

definition strip :: "string \<Rightarrow> string" where
  "strip s = rev (dropWhile isspace (rev (dropWhile isspace s)))"

text \<open>
  Two conversions of the Python library are taken as parameters, since flatten applies
  them only to values the data model does not allow: \<^verbatim>\<open>repr\<close> of a list or a dict,
  and \<^verbatim>\<open>int\<close> of a string (which returns the integer or raises).
\<close>

record pylib =
  repr :: "json \<Rightarrow> string"
  int_of_str :: "string \<Rightarrow> error + int"

text \<open>\<^verbatim>\<open>str(v)\<close>, which is also how an f-string formats \<open>v\<close>.\<close>

definition py_str :: "pylib \<Rightarrow> json \<Rightarrow> string" where
  "py_str L v = (case v of
       JStr s \<Rightarrow> s
     | JInt n \<Rightarrow> str_int n
     | JNull \<Rightarrow> ''None''
     | JBool b \<Rightarrow> (if b then ''True'' else ''False'')
     | _ \<Rightarrow> repr L v)"

text \<open>\<^verbatim>\<open>int(v)\<close>.\<close>

definition py_int :: "pylib \<Rightarrow> json \<Rightarrow> error + int" where
  "py_int L v = (case v of
       JInt n \<Rightarrow> Inr n
     | JBool b \<Rightarrow> Inr (if b then 1 else 0)
     | JStr s \<Rightarrow> int_of_str L s
     | _ \<Rightarrow> Inl TypeError)"

subsection \<open>Dates\<close>

datatype date = Date (year: nat) (month: nat) (day_of_month: nat)

definition zfill :: "nat \<Rightarrow> string \<Rightarrow> string" where
  "zfill w s = replicate (w - length s) CHR ''0'' @ s"

definition isoformat :: "date \<Rightarrow> string" where
  "isoformat d = zfill 4 (digits (year d)) @ ''-'' @ zfill 2 (digits (month d))
                 @ ''-'' @ zfill 2 (digits (day_of_month d))"

section \<open>The store\<close>

text \<open>
  The text of the \<^verbatim>\<open>data\<close> column is \<^verbatim>\<open>json.dumps\<close> of a value, which
  \<^verbatim>\<open>json.loads\<close> gives back, or a text that \<^verbatim>\<open>json.loads\<close> rejects.
\<close>

datatype data_text = Dumps json | NotJson

definition json_dumps :: "json \<Rightarrow> data_text" where
  "json_dumps v = Dumps v"

fun json_loads :: "data_text \<Rightarrow> error + json" where
  "json_loads (Dumps v) = Inr v"
| "json_loads NotJson = Inl JSONDecodeError"

text \<open>
  The three tables, with the schema of \<^verbatim>\<open>init_schema\<close> in place. Table
  \<^verbatim>\<open>template\<close> admits the single row \<^verbatim>\<open>id = 1\<close>: \<open>None\<close> is the empty table.
  The other two tables are their rows in insertion order. Columns \<^verbatim>\<open>checked\<close> and
  \<^verbatim>\<open>closed\<close>, which the code writes as 0 or 1, are booleans; \<^verbatim>\<open>NULL\<close> is \<open>None\<close>.
\<close>

record day_item_row =
  day :: string
  item_id :: string
  item_text :: string
  importance :: int
  checked :: bool
  evidence :: string
  why :: string
  checked_at :: "string option"

record day_status_row =
  status_day :: string
  status_closed :: bool
  status_closed_at :: "string option"

record store =
  template :: "data_text option"
  day_item :: "day_item_row list"
  day_status :: "day_status_row list"

definition empty_store :: store where
  "empty_store = \<lparr>template = None, day_item = [], day_status = []\<rparr>"

section \<open>TemplateRepository\<close>

definition DEFAULT_TEMPLATE :: "json list" where
  "DEFAULT_TEMPLATE =
    [JDict [(''id'', JStr ''progress''),
            (''text'', JStr ''Progress: move a project forward''),
            (''importance'', JInt 3),
            (''subitems'', JList [])],
     JDict [(''id'', JStr ''care''),
            (''text'', JStr ''Care/Connection: serve or connect''),
            (''importance'', JInt 2),
            (''subitems'', JList [])],
     JDict [(''id'', JStr ''maintenance''),
            (''text'', JStr ''Maintenance: body / admin / environment''),
            (''importance'', JInt 2),
            (''subitems'', JList [])]]"

text \<open>\<^verbatim>\<open>CREATE TABLE IF NOT EXISTS\<close> leaves existing tables as they are.\<close>

definition init_schema :: "store \<Rightarrow> store" where
  "init_schema s = s"

definition ensure_default :: "store \<Rightarrow> store" where
  "ensure_default s =
     (if template s = None
      then s\<lparr>template := Some (json_dumps (JList DEFAULT_TEMPLATE))\<rparr>
      else s)"

text \<open>The body of the \<^verbatim>\<open>try\<close> in \<^verbatim>\<open>load\<close>: what it returns or raises.\<close>

definition load_try :: "data_text \<Rightarrow> error + json list" where
  "load_try data = (case json_loads data of
       Inl e \<Rightarrow> Inl e
     | Inr v \<Rightarrow> (case v of JList xs \<Rightarrow> Inr xs | _ \<Rightarrow> Inl (ValueError [])))"

definition load :: "store \<Rightarrow> error + json list" where
  "load s = (case template s of
       None \<Rightarrow> Inr DEFAULT_TEMPLATE
     | Some data \<Rightarrow> (case load_try data of
           Inl e \<Rightarrow> Inr DEFAULT_TEMPLATE
         | Inr xs \<Rightarrow> Inr xs))"

text \<open>
  \<^verbatim>\<open>_validate_template\<close> fills the defaults into the caller's dicts in place; the
  model returns the list as it is afterwards.
\<close>

fun validate_items :: "json list \<Rightarrow> error + json list" where
  "validate_items [] = Inr []"
| "validate_items (item # rest) = (case item of
       JDict d \<Rightarrow>
         if \<not> has_key ''id'' d \<or> \<not> has_key ''text'' d
         then Inl (ValueError ''Each item must have id and text'')
         else (case validate_items rest of
                 Inl e \<Rightarrow> Inl e
               | Inr rest' \<Rightarrow>
                   Inr (JDict (setdefault ''subitems'' (JList [])
                                 (setdefault ''importance'' (JInt 1) d)) # rest'))
     | _ \<Rightarrow> Inl (ValueError ''Each item must have id and text''))"

definition validate_template :: "json \<Rightarrow> error + json" where
  "validate_template template_data = (case template_data of
       JList xs \<Rightarrow> (case validate_items xs of Inl e \<Rightarrow> Inl e | Inr ys \<Rightarrow> Inr (JList ys))
     | _ \<Rightarrow> Inl (ValueError ''Template must be a list''))"

text \<open>
  A mutating operation returns what it returns or raises, and the store it leaves.
  \<^verbatim>\<open>UPDATE ... WHERE id = 1\<close> changes the row when there is one.
\<close>

definition save :: "json \<Rightarrow> store \<Rightarrow> (error + unit) \<times> store" where
  "save template_data s = (case validate_template template_data of
       Inl e \<Rightarrow> (Inl e, s)
     | Inr filled \<Rightarrow>
         (Inr (), (case template s of
                     None \<Rightarrow> s
                   | Some old \<Rightarrow> s\<lparr>template := Some (json_dumps filled)\<rparr>)))"

subsection \<open>flatten\<close>

datatype flat_line = FlatLine (flat_id: string) (flat_text: json) (flat_importance: int)

text \<open>
  What \<^verbatim>\<open>for sub in item.get("subitems", []) or []\<close> iterates over: nothing for a
  false value, the elements of a list, the characters of a string, the keys of a dict;
  a number or \<^verbatim>\<open>True\<close> is not iterable.
\<close>

definition iterate :: "json \<Rightarrow> error + json list" where
  "iterate v = (if \<not> truthy v then Inr [] else (case v of
       JList xs \<Rightarrow> Inr xs
     | JStr s \<Rightarrow> Inr (map (\<lambda>c. JStr [c]) s)
     | JDict d \<Rightarrow> Inr (map (\<lambda>kv. JStr (fst kv)) d)
     | _ \<Rightarrow> Inl TypeError))"

text \<open>The inner loop; \<open>flat\<close> is the list built so far, whose length names a sub-item without id.\<close>

fun flatten_subs ::
  "pylib \<Rightarrow> string \<Rightarrow> (string \<times> json) list \<Rightarrow> json list \<Rightarrow> flat_line list
     \<Rightarrow> error + flat_line list" where
  "flatten_subs L base_id item [] flat = Inr flat"
| "flatten_subs L base_id item (sub # subs) flat = (case sub of
       JDict sd \<Rightarrow>
         (let sub_id = base_id @ '':'' @ py_str L (dict_get sd ''id'' (JInt (int (length flat))))
          in case py_int L (dict_get sd ''importance'' (dict_get item ''importance'' (JInt 1))) of
               Inl e \<Rightarrow> Inl e
             | Inr imp \<Rightarrow>
                 flatten_subs L base_id item subs
                   (flat @ [FlatLine sub_id (dict_get sd ''text'' (JStr sub_id)) imp]))
     | _ \<Rightarrow> Inl AttributeError)"

fun flatten_items :: "pylib \<Rightarrow> json list \<Rightarrow> flat_line list \<Rightarrow> error + flat_line list" where
  "flatten_items L [] flat = Inr flat"
| "flatten_items L (item # rest) flat = (case item of
       JDict d \<Rightarrow>
         (let base_id = py_str L (dict_get d ''id'' JNull)
          in case py_int L (dict_get d ''importance'' (JInt 1)) of
               Inl e \<Rightarrow> Inl e
             | Inr imp \<Rightarrow>
                 (case iterate (dict_get d ''subitems'' (JList [])) of
                    Inl e \<Rightarrow> Inl e
                  | Inr subs \<Rightarrow>
                      (case flatten_subs L base_id d subs
                              (flat @ [FlatLine base_id (dict_get d ''text'' (JStr base_id)) imp]) of
                         Inl e \<Rightarrow> Inl e
                       | Inr flat' \<Rightarrow> flatten_items L rest flat')))
     | _ \<Rightarrow> Inl AttributeError)"

definition flatten :: "pylib \<Rightarrow> json list \<Rightarrow> error + flat_line list" where
  "flatten L template_data = flatten_items L template_data []"

section \<open>DayRepository\<close>

text \<open>
  Binding a Python value to a statement parameter: an integer must fit 64 bits, a list or a
  dict is refused. The \<^verbatim>\<open>TEXT\<close> column \<^verbatim>\<open>item_text\<close> stores a number as its decimal
  text (\<^verbatim>\<open>True\<close> is bound as 1).
\<close>

definition fits_int64 :: "int \<Rightarrow> bool" where
  "fits_int64 n = (- (2 ^ 63) \<le> n \<and> n < 2 ^ 63)"

definition bind_text :: "json \<Rightarrow> error + string option" where
  "bind_text v = (case v of
       JNull \<Rightarrow> Inr None
     | JStr s \<Rightarrow> Inr (Some s)
     | JInt n \<Rightarrow> (if fits_int64 n then Inr (Some (str_int n)) else Inl OverflowError)
     | JBool b \<Rightarrow> Inr (Some (if b then ''1'' else ''0''))
     | _ \<Rightarrow> Inl ProgrammingError)"

definition bind_int :: "int \<Rightarrow> error + int" where
  "bind_int n = (if fits_int64 n then Inr n else Inl OverflowError)"

definition has_row :: "string \<Rightarrow> string \<Rightarrow> day_item_row list \<Rightarrow> bool" where
  "has_row d i rows = (\<exists>r \<in> set rows. day r = d \<and> item_id r = i)"

definition new_row :: "string \<Rightarrow> string \<Rightarrow> string \<Rightarrow> int \<Rightarrow> day_item_row" where
  "new_row d i t n =
     \<lparr>day = d, item_id = i, item_text = t, importance = n,
      checked = False, evidence = [], why = [], checked_at = None\<rparr>"

text \<open>
  One \<^verbatim>\<open>INSERT OR IGNORE\<close>: the row is skipped when \<^verbatim>\<open>item_text\<close> would be
  \<^verbatim>\<open>NULL\<close> (the column is \<^verbatim>\<open>NOT NULL\<close>) or the primary key \<^verbatim>\<open>(day, item_id)\<close> is taken.
\<close>

definition insert_or_ignore ::
  "string \<Rightarrow> flat_line \<Rightarrow> day_item_row list \<Rightarrow> error + day_item_row list" where
  "insert_or_ignore day_str row rows = (case bind_text (flat_text row) of
       Inl e \<Rightarrow> Inl e
     | Inr t \<Rightarrow> (case bind_int (flat_importance row) of
           Inl e \<Rightarrow> Inl e
         | Inr n \<Rightarrow> (case t of
               None \<Rightarrow> Inr rows
             | Some tx \<Rightarrow>
                 if has_row day_str (flat_id row) rows then Inr rows
                 else Inr (rows @ [new_row day_str (flat_id row) tx n]))))"

fun insert_all :: "string \<Rightarrow> flat_line list \<Rightarrow> day_item_row list \<Rightarrow> error + day_item_row list" where
  "insert_all day_str [] rows = Inr rows"
| "insert_all day_str (row # flat) rows = (case insert_or_ignore day_str row rows of
       Inl e \<Rightarrow> Inl e
     | Inr rows' \<Rightarrow> insert_all day_str flat rows')"

text \<open>
  An exception inside \<^verbatim>\<open>with self.db.connect() as conn\<close> rolls the transaction back:
  the store is left as it was.
\<close>

definition instantiate_day_if_needed :: "pylib \<Rightarrow> date \<Rightarrow> store \<Rightarrow> (error + unit) \<times> store" where
  "instantiate_day_if_needed L d s =
     (let day_str = isoformat d in
      if length (filter (\<lambda>r. day r = day_str) (day_item s)) > 0 then (Inr (), s)
      else (case load s of
              Inl e \<Rightarrow> (Inl e, s)
            | Inr template_data \<Rightarrow> (case flatten L template_data of
                  Inl e \<Rightarrow> (Inl e, s)
                | Inr flat \<Rightarrow> (case insert_all day_str flat (day_item s) of
                      Inl e \<Rightarrow> (Inl e, s)
                    | Inr rows \<Rightarrow> (Inr (), s\<lparr>day_item := rows\<rparr>)))))"

text \<open>
  \<^verbatim>\<open>ORDER BY item_id\<close> compares the texts byte by byte, which is the order of the
  strings read as lists of code points.
\<close>

definition select_day :: "string \<Rightarrow> day_item_row list \<Rightarrow> day_item_row list" where
  "select_day day_str rows = sort_key item_id (filter (\<lambda>r. day r = day_str) rows)"

definition get_day_items ::
  "pylib \<Rightarrow> date \<Rightarrow> store \<Rightarrow> (error + day_item_row list) \<times> store" where
  "get_day_items L d s = (case instantiate_day_if_needed L d s of
       (Inl e, s') \<Rightarrow> (Inl e, s')
     | (Inr u, s') \<Rightarrow> (Inr (select_day (isoformat d) (day_item s')), s'))"

definition is_day_closed :: "store \<Rightarrow> date \<Rightarrow> bool" where
  "is_day_closed s d = (case find (\<lambda>r. status_day r = isoformat d) (day_status s) of
       None \<Rightarrow> False
     | Some r \<Rightarrow> status_closed r)"

text \<open>
  \<open>now\<close> is \<^verbatim>\<open>datetime.now().isoformat(timespec="seconds")\<close>, read by the caller.
  The \<^verbatim>\<open>UPDATE\<close> sets four columns (\<open>set_columns\<close>) of the rows its
  \<^verbatim>\<open>WHERE\<close> selects, and is silent when there is none.
\<close>

definition set_columns :: "string \<Rightarrow> bool \<Rightarrow> string \<Rightarrow> string \<Rightarrow> day_item_row \<Rightarrow> day_item_row" where
  "set_columns now chk ev wh r =
     r\<lparr>checked := chk, evidence := strip ev, why := strip wh,
       checked_at := (if chk then Some now else None)\<rparr>"

definition set_item_checked ::
  "string \<Rightarrow> date \<Rightarrow> string \<Rightarrow> bool \<Rightarrow> string \<Rightarrow> string \<Rightarrow> store \<Rightarrow> (error + unit) \<times> store" where
  "set_item_checked now d i chk ev wh s =
     (if chk \<and> strip ev = [] then (Inl (ValueError ''Evidence is required''), s)
      else if is_day_closed s d then (Inl (ValueError ''Day is closed. Reopen to edit.''), s)
      else (Inr (), s\<lparr>day_item :=
              map (\<lambda>r. if day r = isoformat d \<and> item_id r = i
                        then set_columns now chk ev wh r
                        else r) (day_item s)\<rparr>))"

definition get_checked_days :: "store \<Rightarrow> date \<Rightarrow> date \<Rightarrow> string set" where
  "get_checked_days s month_start month_end =
     set (map day (filter (\<lambda>r. isoformat month_start \<le> day r \<and> day r \<le> isoformat month_end
                                \<and> checked r) (day_item s)))"

text \<open>\<^verbatim>\<open>INSERT ... ON CONFLICT(day) DO UPDATE\<close>: the row of the day is rewritten, or added.\<close>

definition upsert_status :: "day_status_row \<Rightarrow> day_status_row list \<Rightarrow> day_status_row list" where
  "upsert_status new rows =
     (if \<exists>r \<in> set rows. status_day r = status_day new
      then map (\<lambda>r. if status_day r = status_day new
                     then r\<lparr>status_closed := status_closed new,
                            status_closed_at := status_closed_at new\<rparr>
                     else r) rows
      else rows @ [new])"

definition set_day_closed :: "string \<Rightarrow> date \<Rightarrow> bool \<Rightarrow> store \<Rightarrow> store" where
  "set_day_closed now d closed s =
     (if closed
      then s\<lparr>day_status := upsert_status
               \<lparr>status_day = isoformat d, status_closed = True, status_closed_at = Some now\<rparr>
               (day_status s)\<rparr>
      else s\<lparr>day_status := upsert_status
               \<lparr>status_day = isoformat d, status_closed = False, status_closed_at = None\<rparr>
               (day_status s)\<rparr>)"

section \<open>QuotaService\<close>

datatype DayState = DayState (items: "day_item_row list") (closed: bool)

definition initialize :: "store \<Rightarrow> store" where
  "initialize s = init_schema (ensure_default (init_schema s))"

definition get_day :: "pylib \<Rightarrow> date \<Rightarrow> store \<Rightarrow> (error + DayState) \<times> store" where
  "get_day L d s = (case get_day_items L d s of
       (Inl e, s') \<Rightarrow> (Inl e, s')
     | (Inr rows, s') \<Rightarrow> (Inr (DayState rows (is_day_closed s' d)), s'))"

definition mark_item ::
  "string \<Rightarrow> date \<Rightarrow> string \<Rightarrow> bool \<Rightarrow> string \<Rightarrow> string \<Rightarrow> store \<Rightarrow> (error + unit) \<times> store" where
  "mark_item now d i chk ev wh s = set_item_checked now d i chk ev wh s"

definition close_day :: "string \<Rightarrow> date \<Rightarrow> store \<Rightarrow> store" where
  "close_day now d s = set_day_closed now d True s"

definition reopen_day :: "string \<Rightarrow> date \<Rightarrow> store \<Rightarrow> store" where
  "reopen_day now d s = set_day_closed now d False s"

definition load_template :: "store \<Rightarrow> error + json list" where
  "load_template s = load s"

definition save_template :: "json \<Rightarrow> store \<Rightarrow> (error + unit) \<times> store" where
  "save_template template_data s = save template_data s"

definition reset_template :: "store \<Rightarrow> (error + json list) \<times> store" where
  "reset_template s = (case save (JList DEFAULT_TEMPLATE) s of
       (Inl e, s') \<Rightarrow> (Inl e, s')
     | (Inr u, s') \<Rightarrow> (Inr DEFAULT_TEMPLATE, s'))"

text \<open>
  The public surface of the service as data, and the store a call leaves behind, whether it
  returned or raised. \<open>now\<close> is the clock reading of the call.
\<close>

datatype call =
    Initialize
  | GetDay date
  | MarkItem date string bool string string
  | CloseDay date
  | ReopenDay date
  | GetCheckedDays date date
  | LoadTemplate
  | SaveTemplate json
  | ResetTemplate

fun perform :: "pylib \<Rightarrow> string \<Rightarrow> call \<Rightarrow> store \<Rightarrow> store" where
  "perform L now Initialize s = initialize s"
| "perform L now (GetDay d) s = snd (get_day L d s)"
| "perform L now (MarkItem d i chk ev wh) s = snd (mark_item now d i chk ev wh s)"
| "perform L now (CloseDay d) s = close_day now d s"
| "perform L now (ReopenDay d) s = reopen_day now d s"
| "perform L now (GetCheckedDays a b) s = s"
| "perform L now LoadTemplate s = s"
| "perform L now (SaveTemplate x) s = snd (save_template x s)"
| "perform L now ResetTemplate s = snd (reset_template s)"

section \<open>Notions of the specification\<close>

text \<open>Evidence is blank when it is empty or consists of white space only.\<close>

definition blank :: "string \<Rightarrow> bool" where
  "blank ev = list_all isspace ev"

text \<open>The two failures of \<open>set_item_checked\<close>, under the names the specification gives them.\<close>

definition ValidationError :: error where
  "ValidationError = ValueError ''Evidence is required''"

definition DayClosedError :: error where
  "DayClosedError = ValueError ''Day is closed. Reopen to edit.''"




text \<open>
  The invariant of a DayItem row: a checked row has evidence that is not empty after
  trimming and a \<open>checked_at\<close>, an unchecked row has no \<open>checked_at\<close>.
\<close>

definition row_ok :: "day_item_row \<Rightarrow> bool" where
  "row_ok r = (if checked r then strip (evidence r) \<noteq> [] \<and> checked_at r \<noteq> None
               else checked_at r = None)"

definition rows_ok :: "store \<Rightarrow> bool" where
  "rows_ok s = list_all row_ok (day_item s)"

text \<open>
  A template of the data model: every item and sub-item is a dict whose \<open>id\<close> and
  \<open>text\<close> are strings and whose \<open>importance\<close>, when present, is an integer; \<open>subitems\<close>,
  when present, is a list of sub-items.
\<close>

definition is_str :: "json option \<Rightarrow> bool" where
  "is_str v = (case v of Some (JStr s) \<Rightarrow> True | _ \<Rightarrow> False)"

definition int_if_present :: "json option \<Rightarrow> bool" where
  "int_if_present v = (case v of None \<Rightarrow> True | Some (JInt n) \<Rightarrow> True | _ \<Rightarrow> False)"

definition sub_ok :: "json \<Rightarrow> bool" where
  "sub_ok sub = (case sub of
       JDict sd \<Rightarrow> is_str (map_of sd ''id'') \<and> is_str (map_of sd ''text'')
                   \<and> int_if_present (map_of sd ''importance'')
     | _ \<Rightarrow> False)"

definition item_ok :: "json \<Rightarrow> bool" where
  "item_ok item = (case item of
       JDict d \<Rightarrow> is_str (map_of d ''id'') \<and> is_str (map_of d ''text'')
                  \<and> int_if_present (map_of d ''importance'')
                  \<and> (case map_of d ''subitems'' of
                        None \<Rightarrow> True
                      | Some (JList subs) \<Rightarrow> list_all sub_ok subs
                      | _ \<Rightarrow> False)
     | _ \<Rightarrow> False)"

definition template_ok :: "json list \<Rightarrow> bool" where
  "template_ok t = list_all item_ok t"

text \<open>
  Flattening as the specification words it: each item's line, followed by the lines of its
  sub-items in their order. A sub-item's id is the parent's id, a colon and its own id; its
  importance is its own or else the parent's.
\<close>

definition the_str :: "json \<Rightarrow> string" where
  "the_str v = (case v of JStr s \<Rightarrow> s | _ \<Rightarrow> [])"

definition the_int :: "json \<Rightarrow> int" where
  "the_int v = (case v of JInt n \<Rightarrow> n | _ \<Rightarrow> 0)"

definition the_list :: "json \<Rightarrow> json list" where
  "the_list v = (case v of JList xs \<Rightarrow> xs | _ \<Rightarrow> [])"

definition the_dict :: "json \<Rightarrow> (string \<times> json) list" where
  "the_dict v = (case v of JDict d \<Rightarrow> d | _ \<Rightarrow> [])"

definition importance_of :: "(string \<times> json) list \<Rightarrow> int" where
  "importance_of d = (case map_of d ''importance'' of None \<Rightarrow> 1 | Some v \<Rightarrow> the_int v)"

definition item_line :: "(string \<times> json) list \<Rightarrow> flat_line" where
  "item_line d = FlatLine (the_str (dict_get d ''id'' JNull)) (dict_get d ''text'' JNull)
                   (importance_of d)"

definition sub_line :: "(string \<times> json) list \<Rightarrow> (string \<times> json) list \<Rightarrow> flat_line" where
  "sub_line d sd =
     FlatLine (the_str (dict_get d ''id'' JNull) @ '':'' @ the_str (dict_get sd ''id'' JNull))
       (dict_get sd ''text'' JNull)
       (case map_of sd ''importance'' of None \<Rightarrow> importance_of d | Some v \<Rightarrow> the_int v)"

definition expand :: "json \<Rightarrow> flat_line list" where
  "expand item =
     item_line (the_dict item)
       # map (\<lambda>sub. sub_line (the_dict item) (the_dict sub))
           (the_list (dict_get (the_dict item) ''subitems'' (JList [])))"

definition flatten_spec :: "json list \<Rightarrow> flat_line list" where
  "flatten_spec t = concat (map expand t)"

text \<open>A row as a day's instantiation inserts it: of that day, unchecked, without \<open>checked_at\<close>.\<close>

definition fresh_for :: "string \<Rightarrow> day_item_row \<Rightarrow> bool" where
  "fresh_for k r = (day r = k \<and> \<not> checked r \<and> checked_at r = None)"

text \<open>A line that an insert can store: its text is a string and its importance fits 64 bits.\<close>

definition storable :: "flat_line \<Rightarrow> bool" where
  "storable l = ((\<exists>s. flat_text l = JStr s) \<and> fits_int64 (flat_importance l))"

text \<open>The DayItem row a flattened line is instantiated to on a day.\<close>

definition fresh_row :: "date \<Rightarrow> flat_line \<Rightarrow> day_item_row" where
  "fresh_row d l =
     \<lparr>day = isoformat d, item_id = flat_id l, item_text = the_str (flat_text l),
      importance = flat_importance l,
      checked = False, evidence = [], why = [], checked_at = None\<rparr>"

section \<open>Example data\<close>

text \<open>A library whose two conversions the examples never reach.\<close>

definition lib0 :: pylib where
  "lib0 = \<lparr>repr = (\<lambda>v. []), int_of_str = (\<lambda>s. Inl (ValueError []))\<rparr>"

definition day1 :: date where
  "day1 = Date 2024 1 1"

definition now1 :: string where
  "now1 = ''2024-01-01T09:00:00''"

definition now2 :: string where
  "now2 = ''2024-01-01T18:30:00''"

text \<open>The store after \<open>initialize()\<close> and \<open>get_day(2024-01-01)\<close> on an empty database.\<close>

definition store1 :: store where
  "store1 =
     \<lparr>template = Some (Dumps (JList DEFAULT_TEMPLATE)),
      day_item =
        [new_row ''2024-01-01'' ''progress'' ''Progress: move a project forward'' 3,
         new_row ''2024-01-01'' ''care'' ''Care/Connection: serve or connect'' 2,
         new_row ''2024-01-01'' ''maintenance'' ''Maintenance: body / admin / environment'' 2],
      day_status = []\<rparr>"

text \<open>
  A template whose ids are unique among the items and among the sub-items of each item,
  and the store after \<open>initialize()\<close> and \<open>save_template\<close> of it.
\<close>

definition colliding :: "json list" where
  "colliding =
     [JDict [(''id'', JStr ''a''), (''text'', JStr ''A''), (''importance'', JInt 1),
             (''subitems'', JList [JDict [(''id'', JStr ''1''), (''text'', JStr ''A1'')]])],
      JDict [(''id'', JStr ''a:1''), (''text'', JStr ''B''), (''importance'', JInt 1),
             (''subitems'', JList [])]]"

definition store2 :: store where
  "store2 = snd (save_template (JList colliding) (initialize empty_store))"

section \<open>Basic facts\<close>

lemma strip_Nil_iff: "strip s = [] \<longleftrightarrow> (\<forall>c \<in> set s. isspace c)"
proof
  assume "strip s = []"
  then have a: "\<forall>c \<in> set (dropWhile isspace s). isspace c"
    by (simp add: strip_def)
  have "dropWhile isspace s = []"
  proof (rule ccontr)
    assume n: "dropWhile isspace s \<noteq> []"
    then have "\<not> isspace (hd (dropWhile isspace s))" by (rule hd_dropWhile)
    moreover have "hd (dropWhile isspace s) \<in> set (dropWhile isspace s)" using n by simp
    ultimately show False using a by blast
  qed
  then show "\<forall>c \<in> set s. isspace c" by (simp only: dropWhile_eq_Nil_conv)
next
  assume "\<forall>c \<in> set s. isspace c"
  then have "dropWhile isspace s = []" by (simp only: dropWhile_eq_Nil_conv)
  then show "strip s = []" by (simp add: strip_def del: dropWhile_eq_Nil_conv)
qed

lemma blank_iff_strip: "blank ev \<longleftrightarrow> strip ev = []"
  by (simp add: blank_def strip_Nil_iff list_all_iff)

lemma strip_idem: "strip (strip s) = strip s"
proof (cases "strip s = []")
  case True
  have "strip [] = []" by (simp add: strip_def)
  with True show ?thesis by simp
next
  case False
  define a where "a = dropWhile isspace s"
  define b where "b = dropWhile isspace (rev a)"
  have sb: "strip s = rev b" by (simp add: strip_def a_def b_def)
  with False have bn: "b \<noteq> []" by simp
  then have an: "a \<noteq> []" by (auto simp: b_def)
  have "\<not> isspace (hd a)" using an unfolding a_def by (rule hd_dropWhile)
  moreover have "hd (rev b) = hd a"
  proof -
    obtain ys where "rev a = ys @ b" unfolding b_def
      by (metis takeWhile_dropWhile_id)
    then have "a = rev b @ rev ys" by (metis rev_append rev_rev_ident)
    then show ?thesis using bn by simp
  qed
  ultimately have "dropWhile isspace (rev b) = rev b" using bn
    by (cases "rev b") auto
  moreover have "dropWhile isspace b = b"
  proof -
    have "\<not> isspace (hd b)" using bn unfolding b_def by (rule hd_dropWhile)
    then show ?thesis using bn by (cases b) auto
  qed
  ultimately have "strip (rev b) = rev b" by (simp add: strip_def)
  then show ?thesis by (simp only: sb)
qed

lemma map_no_match:
  "\<not> has_row d i rows \<Longrightarrow>
   map (\<lambda>r. if day r = d \<and> item_id r = i then f r else r) rows = rows"
  by (induction rows) (auto simp: has_row_def)

lemma set_columns_fields:
  "day (set_columns now chk ev wh r) = day r"
  "item_id (set_columns now chk ev wh r) = item_id r"
  "checked (set_columns now chk ev wh r) = chk"
  "evidence (set_columns now chk ev wh r) = strip ev"
  "why (set_columns now chk ev wh r) = strip wh"
  "checked_at (set_columns now chk ev wh r) = (if chk then Some now else None)"
  by (simp_all add: set_columns_def)

lemma find_snoc:
  "find P (xs @ [x]) =
     (case find P xs of None \<Rightarrow> (if P x then Some x else None) | Some y \<Rightarrow> Some y)"
  by (induction xs) auto

lemma find_upsert:
  assumes "status_day new = k"
  shows "\<exists>r. find (\<lambda>r. status_day r = k) (upsert_status new rows) = Some r
             \<and> status_closed r = status_closed new"
proof (cases "\<exists>r \<in> set rows. status_day r = k")
  case True
  then show ?thesis using assms
    by (induction rows) (auto simp: upsert_status_def)
next
  case False
  then have "find (\<lambda>r. status_day r = k) rows = None"
    by (simp add: find_None_iff)
  with False assms show ?thesis
    by (simp add: upsert_status_def find_snoc)
qed

lemma is_day_closed_set: "is_day_closed (set_day_closed now d c s) d = c"
proof (cases c)
  case True
  obtain r where "find (\<lambda>r. status_day r = isoformat d)
      (upsert_status \<lparr>status_day = isoformat d, status_closed = True, status_closed_at = Some now\<rparr>
         (day_status s)) = Some r" and "status_closed r = True"
    using find_upsert[of "\<lparr>status_day = isoformat d, status_closed = True, status_closed_at = Some now\<rparr>"
        "isoformat d" "day_status s"] by auto
  with True show ?thesis by (simp add: is_day_closed_def set_day_closed_def)
next
  case False
  obtain r where "find (\<lambda>r. status_day r = isoformat d)
      (upsert_status \<lparr>status_day = isoformat d, status_closed = False, status_closed_at = None\<rparr>
         (day_status s)) = Some r" and "status_closed r = False"
    using find_upsert[of "\<lparr>status_day = isoformat d, status_closed = False, status_closed_at = None\<rparr>"
        "isoformat d" "day_status s"] by auto
  with False show ?thesis by (simp add: is_day_closed_def set_day_closed_def)
qed

lemma day_item_set_day_closed: "day_item (set_day_closed now d c s) = day_item s"
  by (simp add: set_day_closed_def)

lemma closed_after_close: "is_day_closed (close_day t0 d s) d"
  by (simp add: close_day_def is_day_closed_set)

lemma open_after_reopen: "\<not> is_day_closed (reopen_day t1 d s) d"
  by (simp add: reopen_day_def is_day_closed_set)

lemma day_item_close: "day_item (close_day t0 d s) = day_item s"
  by (simp add: close_day_def day_item_set_day_closed)

lemma day_item_reopen: "day_item (reopen_day t0 d s) = day_item s"
  by (simp add: reopen_day_def day_item_set_day_closed)

lemma mark_closed:
  assumes "is_day_closed s d"
  shows "mark_item t d i chk ev wh s =
     (Inl (if chk \<and> blank ev then ValidationError else DayClosedError), s)"
  using assms
  by (simp add: mark_item_def set_item_checked_def blank_iff_strip
        ValidationError_def DayClosedError_def)

lemma mark_open:
  assumes "\<not> is_day_closed s d" and "chk \<longrightarrow> \<not> blank ev"
  shows "mark_item t d i chk ev wh s =
     (Inr (), s\<lparr>day_item :=
              map (\<lambda>r. if day r = isoformat d \<and> item_id r = i
                        then set_columns t chk ev wh r else r) (day_item s)\<rparr>)"
  using assms
  by (simp add: mark_item_def set_item_checked_def blank_iff_strip)

lemma marked_rows:
  "list_all (\<lambda>r. day r = k \<and> item_id r = i \<longrightarrow>
               checked r = chk \<and> evidence r = strip ev \<and> why r = strip wh
               \<and> checked_at r = (if chk then Some t else None))
     (map (\<lambda>r. if day r = k \<and> item_id r = i then set_columns t chk ev wh r else r) rows)"
  by (induction rows) (simp_all add: set_columns_fields, blast)

lemma marked_has_row:
  "has_row k i (map (\<lambda>r. if day r = k \<and> item_id r = i then set_columns t chk ev wh r else r) rows)
   = has_row k i rows"
  unfolding has_row_def by (induction rows) (simp_all add: set_columns_fields)



subsection \<open>The example data\<close>

lemma iso_day1: "isoformat day1 = ''2024-01-01''"
  by code_simp

lemma store1_reached: "snd (get_day lib0 day1 (initialize empty_store)) = store1"
  by code_simp

lemma store1_open: "\<not> is_day_closed store1 day1"
  by (simp add: is_day_closed_def store1_def)

lemma store1_no_ghost: "\<not> has_row (isoformat day1) ''ghost'' (day_item store1)"
  by (simp add: has_row_def store1_def iso_day1 new_row_def)

lemma store1_progress: "has_row (isoformat day1) ''progress'' (day_item store1)"
  by (simp add: has_row_def store1_def iso_day1 new_row_def)

lemma not_blank_did: "\<not> blank ''did X''"
  by (simp add: blank_def isspace_def)

lemma blank_spaces: "blank ''   ''"
  by (simp add: blank_def isspace_def)

section \<open>Marking items\<close>

text \<open>
  C1, as claimed: \<open>set_item_checked\<close> fails with NotFoundError when the day has no row
  for the item. The code has no such error: the call below, for an item the day does not
  have, on an open day and with evidence, returns and leaves the store as it was.
\<close>

theorem set_item_checked_missing_row_counterexample:
  "\<not> has_row (isoformat day1) ''ghost'' (day_item store1)
   \<and> \<not> is_day_closed store1 day1
   \<and> \<not> blank ''did X''
   \<and> set_item_checked now1 day1 ''ghost'' True ''did X'' [] store1 = (Inr (), store1)"
  by (simp add: store1_no_ghost store1_open not_blank_did set_item_checked_def
        map_no_match blank_iff_strip [symmetric])

text \<open>
  C1, amended: for every day and item id without a DayItem row, \<open>set_item_checked\<close> on an
  open day (with evidence that is not blank when \<open>checked\<close> is true) returns without an
  error and leaves the store unchanged.
\<close>

theorem set_item_checked_missing_row:
  assumes "\<not> has_row (isoformat d) i (day_item s)"
    and "\<not> is_day_closed s d"
    and "chk \<longrightarrow> \<not> blank ev"
  shows "set_item_checked now d i chk ev wh s = (Inr (), s)"
  using assms by (simp add: set_item_checked_def map_no_match blank_iff_strip)

theorem set_item_checked_missing_row_witness:
  "\<not> has_row (isoformat day1) ''nothing'' (day_item empty_store)
   \<and> \<not> is_day_closed empty_store day1
   \<and> \<not> blank ''walked 5 km''
   \<and> set_item_checked now2 day1 ''nothing'' True ''walked 5 km'' ''health'' empty_store
       = (Inr (), empty_store)"
proof -
  have a: "\<not> has_row (isoformat day1) ''nothing'' (day_item empty_store)"
    by (simp add: has_row_def empty_store_def)
  have b: "\<not> is_day_closed empty_store day1"
    by (simp add: is_day_closed_def empty_store_def)
  have c: "\<not> blank ''walked 5 km''"
    by (simp add: blank_def isspace_def)
  then have c': "True \<longrightarrow> \<not> blank ''walked 5 km''" by simp
  show ?thesis
    using set_item_checked_missing_row[OF a b c', of now2 "''health''"] a b c by simp
qed

text \<open>
  C9: on a closed day, \<open>set_item_checked\<close> with \<open>checked\<close> true and blank evidence fails
  with the missing-evidence error, not with the day-closed error: the evidence is checked
  first. Every other call on the closed day fails with the day-closed error. Both failures
  leave the store unchanged (whether or not the item has a row).
\<close>

theorem set_item_checked_evidence_first:
  assumes "is_day_closed s d"
  shows "(blank ev \<longrightarrow>
            set_item_checked now d i True ev wh s = (Inl ValidationError, s))
       \<and> (\<not> (chk \<and> blank ev) \<longrightarrow>
            set_item_checked now d i chk ev wh s = (Inl DayClosedError, s))
       \<and> ValidationError \<noteq> DayClosedError"
  using assms
  by (simp add: set_item_checked_def blank_iff_strip ValidationError_def DayClosedError_def)

theorem set_item_checked_evidence_first_witness:
  "is_day_closed (close_day now1 day1 store1) day1
   \<and> has_row (isoformat day1) ''progress'' (day_item (close_day now1 day1 store1))
   \<and> blank ''   ''
   \<and> set_item_checked now2 day1 ''progress'' True ''   '' [] (close_day now1 day1 store1)
       = (Inl ValidationError, close_day now1 day1 store1)
   \<and> \<not> blank ''did X''
   \<and> set_item_checked now2 day1 ''progress'' True ''did X'' [] (close_day now1 day1 store1)
       = (Inl DayClosedError, close_day now1 day1 store1)"
proof -
  have a: "is_day_closed (close_day now1 day1 store1) day1"
    by (rule closed_after_close)
  have b: "has_row (isoformat day1) ''progress'' (day_item (close_day now1 day1 store1))"
    by (simp only: day_item_close store1_progress)
  show ?thesis
    using set_item_checked_evidence_first[OF a, of "''   ''" now2 "''progress''" "[]" True]
      set_item_checked_evidence_first[OF a, of "''did X''" now2 "''progress''" "[]" True]
      a b blank_spaces not_blank_did
    by simp
qed

text \<open>
  C3, as claimed: after \<open>close_day\<close> every \<open>mark_item\<close> on the day fails with the
  day-closed error. The call below, with \<open>checked\<close> true and blank evidence, fails with the
  missing-evidence error instead.
\<close>

theorem mark_item_closed_counterexample:
  "has_row (isoformat day1) ''progress'' (day_item store1)
   \<and> mark_item now2 day1 ''progress'' True ''   '' [] (close_day now1 day1 store1)
       = (Inl (ValueError ''Evidence is required''), close_day now1 day1 store1)
   \<and> ValueError ''Evidence is required'' \<noteq> DayClosedError"
  by (simp add: store1_progress mark_closed [OF closed_after_close] blank_spaces
        ValidationError_def DayClosedError_def)

text \<open>
  C3, amended: after \<open>close_day\<close> every \<open>mark_item\<close> on the day fails and leaves the store
  unchanged, with the day-closed error unless \<open>checked\<close> is true and the evidence blank,
  and then with the missing-evidence error. After a following \<open>reopen_day\<close>, \<open>mark_item\<close>
  with \<open>checked\<close> true and evidence that is not blank returns, every row of that day and
  item id is then checked, with the trimmed evidence and reason and the time of the call,
  and the row is still there if it was.
\<close>

theorem mark_item_closed_then_reopened:
  "(\<exists>e. mark_item t d i chk ev wh (close_day t0 d s) = (Inl e, close_day t0 d s))
   \<and> (\<not> (chk \<and> blank ev) \<longrightarrow>
        mark_item t d i chk ev wh (close_day t0 d s) = (Inl DayClosedError, close_day t0 d s))
   \<and> (chk \<and> blank ev \<longrightarrow>
        mark_item t d i chk ev wh (close_day t0 d s) = (Inl ValidationError, close_day t0 d s))
   \<and> (\<not> blank ev \<longrightarrow>
        fst (mark_item t2 d i True ev wh (reopen_day t1 d (close_day t0 d s))) = Inr ()
        \<and> list_all (\<lambda>r. day r = isoformat d \<and> item_id r = i \<longrightarrow>
                       checked r \<and> evidence r = strip ev \<and> why r = strip wh
                       \<and> checked_at r = Some t2)
            (day_item (snd (mark_item t2 d i True ev wh (reopen_day t1 d (close_day t0 d s)))))
        \<and> has_row (isoformat d) i
             (day_item (snd (mark_item t2 d i True ev wh (reopen_day t1 d (close_day t0 d s)))))
           = has_row (isoformat d) i (day_item s))"
proof -
  let ?c = "close_day t0 d s"
  let ?o = "reopen_day t1 d ?c"
  let ?upd = "\<lambda>r. if day r = isoformat d \<and> item_id r = i
                   then set_columns t2 True ev wh r else r"
  have c: "mark_item t d i chk ev wh ?c =
     (Inl (if chk \<and> blank ev then ValidationError else DayClosedError), ?c)"
    by (rule mark_closed) (rule closed_after_close)
  have c1: "\<exists>e. mark_item t d i chk ev wh ?c = (Inl e, ?c)"
    unfolding c by blast
  have c2: "\<not> (chk \<and> blank ev) \<longrightarrow> mark_item t d i chk ev wh ?c = (Inl DayClosedError, ?c)"
    unfolding c by simp
  have c3: "chk \<and> blank ev \<longrightarrow> mark_item t d i chk ev wh ?c = (Inl ValidationError, ?c)"
    unfolding c by simp
  have o: "mark_item t2 d i True ev wh ?o = (Inr (), ?o\<lparr>day_item := map ?upd (day_item ?o)\<rparr>)"
    if "\<not> blank ev"
    using mark_open[OF open_after_reopen, where chk = True and ev = ev and t = t2
        and i = i and wh = wh] that by simp
  have di: "day_item ?o = day_item s"
    by (simp only: day_item_reopen day_item_close)
  have rows: "day_item (snd (mark_item t2 d i True ev wh ?o)) = map ?upd (day_item s)"
    if "\<not> blank ev"
    unfolding o[OF that] di by simp
  have o1: "fst (mark_item t2 d i True ev wh ?o) = Inr ()" if "\<not> blank ev"
    unfolding o[OF that] by simp
  have o2: "list_all (\<lambda>r. day r = isoformat d \<and> item_id r = i \<longrightarrow>
                       checked r \<and> evidence r = strip ev \<and> why r = strip wh
                       \<and> checked_at r = Some t2) (map ?upd (day_item s))"
    using marked_rows[of "isoformat d" i True ev wh t2 "day_item s"] by simp
  have o3: "has_row (isoformat d) i (map ?upd (day_item s)) = has_row (isoformat d) i (day_item s)"
    by (rule marked_has_row)
  show ?thesis
    using c1 c2 c3 o1 o2 o3 rows by presburger
qed

theorem mark_item_closed_then_reopened_witness:
  "\<not> blank ''did X''
   \<and> mark_item now2 day1 ''progress'' True ''did X'' [] (close_day now1 day1 store1)
       = (Inl DayClosedError, close_day now1 day1 store1)
   \<and> blank ''   ''
   \<and> mark_item now2 day1 ''progress'' True ''   '' [] (close_day now1 day1 store1)
       = (Inl ValidationError, close_day now1 day1 store1)
   \<and> fst (mark_item now2 day1 ''progress'' True ''did X'' ''because''
             (reopen_day now2 day1 (close_day now1 day1 store1))) = Inr ()
   \<and> has_row (isoformat day1) ''progress''
        (day_item (snd (mark_item now2 day1 ''progress'' True ''did X'' ''because''
                          (reopen_day now2 day1 (close_day now1 day1 store1)))))"
  using mark_item_closed_then_reopened
          [of now2 day1 "''progress''" True "''did X''" "[]" now1 store1 now2 now2]
    mark_item_closed_then_reopened
          [of now2 day1 "''progress''" True "''   ''" "[]" now1 store1 now2 now2]
    mark_item_closed_then_reopened
          [of now2 day1 "''progress''" True "''did X''" "''because''" now1 store1 now2 now2]
    not_blank_did blank_spaces store1_progress
  by simp

section \<open>The template store\<close>











section \<open>Flattening\<close>

lemma is_str_cases: "is_str v \<Longrightarrow> \<exists>s. v = Some (JStr s)"
  unfolding is_str_def by (cases v; simp) (rename_tac x, case_tac x; simp)

lemma int_if_present_cases: "int_if_present v \<Longrightarrow> v = None \<or> (\<exists>n. v = Some (JInt n))"
  unfolding int_if_present_def by (cases v; simp) (rename_tac x, case_tac x; simp)

lemma is_str_get:
  assumes "is_str (map_of d k)"
  shows "py_str L (dict_get d k dflt) = the_str (dict_get d k JNull)"
    and "dict_get d k dflt = dict_get d k JNull"
proof -
  from assms obtain s where "map_of d k = Some (JStr s)"
    using is_str_cases by blast
  then show "py_str L (dict_get d k dflt) = the_str (dict_get d k JNull)"
    and "dict_get d k dflt = dict_get d k JNull"
    by (simp_all add: dict_get_def py_str_def the_str_def)
qed

lemma int_get:
  assumes "int_if_present (map_of d ''importance'')"
  shows "py_int L (dict_get d ''importance'' (JInt 1)) = Inr (importance_of d)"
  using int_if_present_cases[OF assms]
  by (auto simp: dict_get_def py_int_def the_int_def importance_of_def)

lemma sub_int_get:
  assumes "int_if_present (map_of sd ''importance'')"
    and "int_if_present (map_of d ''importance'')"
  shows "py_int L (dict_get sd ''importance'' (dict_get d ''importance'' (JInt 1)))
      = Inr (case map_of sd ''importance'' of None \<Rightarrow> importance_of d | Some v \<Rightarrow> the_int v)"
proof (cases "map_of sd ''importance''")
  case None
  then show ?thesis
    using int_get[OF assms(2), of L] by (simp add: dict_get_def[of sd])
next
  case (Some v)
  with int_if_present_cases[OF assms(1)] obtain n where "v = JInt n" by auto
  with Some show ?thesis
    by (simp add: dict_get_def[of sd] py_int_def the_int_def)
qed

lemma sub_ok_cases:
  assumes "sub_ok sub"
  obtains sd where "sub = JDict sd" and "is_str (map_of sd ''id'')"
    and "is_str (map_of sd ''text'')" and "int_if_present (map_of sd ''importance'')"
  using assms unfolding sub_ok_def by (cases sub) simp_all

lemma flatten_subs_step:
  assumes "sub_ok sub" and "int_if_present (map_of d ''importance'')"
  shows "flatten_subs L (the_str (dict_get d ''id'' JNull)) d (sub # subs) flat
       = flatten_subs L (the_str (dict_get d ''id'' JNull)) d subs
           (flat @ [sub_line d (the_dict sub)])"
proof -
  from assms(1) obtain sd where sd: "sub = JDict sd" and
    ok: "is_str (map_of sd ''id'')" "is_str (map_of sd ''text'')"
        "int_if_present (map_of sd ''importance'')"
    by (rule sub_ok_cases)
  note imp = sub_int_get[OF ok(3) assms(2), of L]
  note i = is_str_get(1)[OF ok(1), of L "JInt (int (length flat))"]
  note tx = is_str_get(2)[OF ok(2)]
  show ?thesis
    unfolding sd flatten_subs.simps json.case Let_def imp sum.case i tx[of "JStr _"]
    by (simp add: sub_line_def the_dict_def)
qed

lemma flatten_subs_spec:
  assumes "list_all sub_ok subs" and "int_if_present (map_of d ''importance'')"
  shows "flatten_subs L (the_str (dict_get d ''id'' JNull)) d subs flat
           = Inr (flat @ map (\<lambda>sub. sub_line d (the_dict sub)) subs)"
  using assms(1)
proof (induction subs arbitrary: flat)
  case Nil
  then show ?case by simp
next
  case (Cons sub subs)
  then have "sub_ok sub" and "list_all sub_ok subs" by simp_all
  then show ?case
    using Cons.IH[of "flat @ [sub_line d (the_dict sub)]"]
    by (simp only: flatten_subs_step[OF \<open>sub_ok sub\<close> assms(2)]) simp
qed

lemma item_ok_cases:
  assumes "item_ok item"
  obtains d where "item = JDict d" and "is_str (map_of d ''id'')"
    and "is_str (map_of d ''text'')" and "int_if_present (map_of d ''importance'')"
    and "iterate (dict_get d ''subitems'' (JList []))
           = Inr (the_list (dict_get d ''subitems'' (JList [])))"
    and "list_all sub_ok (the_list (dict_get d ''subitems'' (JList [])))"
proof -
  from assms obtain d where d: "item = JDict d"
    and ok: "is_str (map_of d ''id'')" "is_str (map_of d ''text'')"
      "int_if_present (map_of d ''importance'')"
    and subs: "case map_of d ''subitems'' of None \<Rightarrow> True
           | Some v \<Rightarrow> (case v of JList subs \<Rightarrow> list_all sub_ok subs | _ \<Rightarrow> False)"
    unfolding item_ok_def by (cases item) simp_all
  have "iterate (dict_get d ''subitems'' (JList []))
           = Inr (the_list (dict_get d ''subitems'' (JList [])))
      \<and> list_all sub_ok (the_list (dict_get d ''subitems'' (JList [])))"
  proof (cases "map_of d ''subitems''")
    case None
    then show ?thesis by (simp add: dict_get_def iterate_def the_list_def)
  next
    case (Some v)
    with subs obtain xs where "v = JList xs" and "list_all sub_ok xs"
      by (cases v) simp_all
    with Some show ?thesis by (simp add: dict_get_def iterate_def the_list_def)
  qed
  with d ok that show ?thesis by blast
qed

lemma flatten_items_step:
  assumes "item_ok item"
  shows "flatten_items L (item # rest) flat = flatten_items L rest (flat @ expand item)"
proof -
  from assms obtain d where d: "item = JDict d"
    and ok: "is_str (map_of d ''id'')" "is_str (map_of d ''text'')"
      "int_if_present (map_of d ''importance'')"
    and it: "iterate (dict_get d ''subitems'' (JList []))
           = Inr (the_list (dict_get d ''subitems'' (JList [])))"
    and so: "list_all sub_ok (the_list (dict_get d ''subitems'' (JList [])))"
    by (rule item_ok_cases)
  note i = is_str_get(1)[OF ok(1), of L JNull]
  note tx = is_str_get(2)[OF ok(2)]
  note imp = int_get[OF ok(3), of L]
  note sub = flatten_subs_spec[OF so ok(3), of L]
  have ex: "expand item = item_line d
      # map (\<lambda>sub. sub_line d (the_dict sub)) (the_list (dict_get d ''subitems'' (JList [])))"
    by (simp add: expand_def d the_dict_def)
  have line: "FlatLine (the_str (dict_get d ''id'' JNull))
                (dict_get d ''text'' (JStr (the_str (dict_get d ''id'' JNull)))) (importance_of d)
              = item_line d"
    by (simp add: item_line_def tx[of "JStr _"])
  show ?thesis
    unfolding d flatten_items.simps json.case Let_def i imp sum.case it line sub
    by (simp add: ex[unfolded d])
qed

lemma flatten_items_spec:
  assumes "list_all item_ok t"
  shows "flatten_items L t flat = Inr (flat @ flatten_spec t)"
  using assms
proof (induction t arbitrary: flat)
  case Nil
  then show ?case by (simp add: flatten_spec_def)
next
  case (Cons item rest)
  then have "item_ok item" and "list_all item_ok rest" by simp_all
  then show ?case
    using Cons.IH[of "flat @ expand item"]
    by (simp only: flatten_items_step[OF \<open>item_ok item\<close>]) (simp add: flatten_spec_def)
qed

lemma flatten_refines: "template_ok t \<Longrightarrow> flatten L t = Inr (flatten_spec t)"
  by (simp add: flatten_def template_ok_def flatten_items_spec)

text \<open>
  C8: \<open>flatten\<close> is a function of the template alone, and on a template of the data model
  it returns the lines of the items in template order, each item's line followed by the
  lines of its sub-items in their order. The id of a sub-item's line is the parent's id, a
  colon and the sub-item's id, and a sub-item without \<open>importance\<close> has the importance of
  its parent's line.
\<close>

theorem flatten_in_template_order:
  assumes "template_ok t"
  shows "flatten L t = Inr (concat (map expand t))
       \<and> (\<forall>item \<in> set t. expand item =
             item_line (the_dict item)
               # map (\<lambda>sub. sub_line (the_dict item) (the_dict sub))
                   (the_list (dict_get (the_dict item) ''subitems'' (JList []))))
       \<and> (\<forall>d sd. flat_id (sub_line d sd) =
             flat_id (item_line d) @ '':'' @ the_str (dict_get sd ''id'' JNull))
       \<and> (\<forall>d sd. map_of sd ''importance'' = None \<longrightarrow>
             flat_importance (sub_line d sd) = flat_importance (item_line d))"
  using flatten_refines[OF assms, of L]
  by (simp add: flatten_spec_def expand_def sub_line_def item_line_def)

theorem flatten_in_template_order_witness:
  "template_ok
     [JDict [(''id'', JStr ''a''), (''text'', JStr ''A''),
             (''subitems'', JList [JDict [(''id'', JStr ''1''), (''text'', JStr ''A1'')]])],
      JDict [(''id'', JStr ''b''), (''text'', JStr ''B''), (''importance'', JInt 5),
             (''subitems'', JList [JDict [(''id'', JStr ''x''), (''text'', JStr ''BX'')],
                                   JDict [(''id'', JStr ''y''), (''text'', JStr ''BY''),
                                          (''importance'', JInt 2)]])]]
   \<and> flatten lib0
     [JDict [(''id'', JStr ''a''), (''text'', JStr ''A''),
             (''subitems'', JList [JDict [(''id'', JStr ''1''), (''text'', JStr ''A1'')]])],
      JDict [(''id'', JStr ''b''), (''text'', JStr ''B''), (''importance'', JInt 5),
             (''subitems'', JList [JDict [(''id'', JStr ''x''), (''text'', JStr ''BX'')],
                                   JDict [(''id'', JStr ''y''), (''text'', JStr ''BY''),
                                          (''importance'', JInt 2)]])]]
     = Inr [FlatLine ''a'' (JStr ''A'') 1, FlatLine ''a:1'' (JStr ''A1'') 1,
            FlatLine ''b'' (JStr ''B'') 5, FlatLine ''b:x'' (JStr ''BX'') 5,
            FlatLine ''b:y'' (JStr ''BY'') 2]"
proof -
  have ok: "template_ok
     [JDict [(''id'', JStr ''a''), (''text'', JStr ''A''),
             (''subitems'', JList [JDict [(''id'', JStr ''1''), (''text'', JStr ''A1'')]])],
      JDict [(''id'', JStr ''b''), (''text'', JStr ''B''), (''importance'', JInt 5),
             (''subitems'', JList [JDict [(''id'', JStr ''x''), (''text'', JStr ''BX'')],
                                   JDict [(''id'', JStr ''y''), (''text'', JStr ''BY''),
                                          (''importance'', JInt 2)]])]]"
    by (simp add: template_ok_def item_ok_def sub_ok_def is_str_def int_if_present_def)
  show ?thesis
    using flatten_in_template_order[OF ok, of lib0] ok
    by (simp add: expand_def item_line_def sub_line_def the_dict_def the_list_def the_str_def
          the_int_def dict_get_def importance_of_def)
qed

section \<open>Day instantiation\<close>

lemma insert_or_ignore_cases:
  assumes "insert_or_ignore k l rows = Inr rows'"
  shows "rows' = rows \<or> (\<exists>tx n. rows' = rows @ [new_row k (flat_id l) tx n])"
proof (cases "bind_text (flat_text l)")
  case (Inl e)
  with assms show ?thesis by (simp add: insert_or_ignore_def)
next
  case t: (Inr t)
  show ?thesis
  proof (cases "bind_int (flat_importance l)")
    case (Inl e)
    with assms t show ?thesis by (simp add: insert_or_ignore_def)
  next
    case n: (Inr n)
    show ?thesis
    proof (cases t)
      case None
      with assms t n show ?thesis by (simp add: insert_or_ignore_def)
    next
      case (Some tx)
      with assms t n show ?thesis
        by (cases "has_row k (flat_id l) rows") (auto simp: insert_or_ignore_def)
    qed
  qed
qed

lemma fresh_new_row: "fresh_for k (new_row k i tx n)"
  by (simp add: fresh_for_def new_row_def)

lemma insert_all_extends:
  "insert_all k flat rows = Inr rows' \<Longrightarrow>
   \<exists>extra. rows' = rows @ extra \<and> list_all (fresh_for k) extra"
proof (induction flat arbitrary: rows)
  case Nil
  then show ?case by simp
next
  case (Cons l flat)
  then obtain mid where m: "insert_or_ignore k l rows = Inr mid"
    and r: "insert_all k flat mid = Inr rows'"
    by (cases "insert_or_ignore k l rows") simp_all
  from Cons.IH[OF r] obtain extra where e: "rows' = mid @ extra" "list_all (fresh_for k) extra"
    by blast
  from insert_or_ignore_cases[OF m] show ?case
  proof
    assume "mid = rows"
    with e show ?thesis by blast
  next
    assume "\<exists>tx n. mid = rows @ [new_row k (flat_id l) tx n]"
    then obtain tx n where "mid = rows @ [new_row k (flat_id l) tx n]" by blast
    with e have "rows' = rows @ (new_row k (flat_id l) tx n # extra)"
      and "list_all (fresh_for k) (new_row k (flat_id l) tx n # extra)"
      by (simp_all add: fresh_new_row)
    then show ?thesis by blast
  qed
qed

lemma instantiate_cases:
  obtains (same) "snd (instantiate_day_if_needed L d s) = s"
  | (added) extra where "extra \<noteq> []" and "list_all (fresh_for (isoformat d)) extra"
      and "instantiate_day_if_needed L d s = (Inr (), s\<lparr>day_item := day_item s @ extra\<rparr>)"
proof (cases "filter (\<lambda>r. day r = isoformat d) (day_item s) = []")
  case False
  then have "snd (instantiate_day_if_needed L d s) = s"
    by (simp add: instantiate_day_if_needed_def)
  then show ?thesis by (rule same)
next
  case True
  show ?thesis
  proof (cases "load s")
    case (Inl e)
    then have "snd (instantiate_day_if_needed L d s) = s"
      by (simp add: instantiate_day_if_needed_def Let_def)
    then show ?thesis by (rule same)
  next
    case t: (Inr t)
    show ?thesis
    proof (cases "flatten L t")
      case (Inl e)
      with t have "snd (instantiate_day_if_needed L d s) = s"
        by (simp add: instantiate_day_if_needed_def Let_def)
      then show ?thesis by (rule same)
    next
      case f: (Inr flat)
      show ?thesis
      proof (cases "insert_all (isoformat d) flat (day_item s)")
        case (Inl e)
        with t f have "snd (instantiate_day_if_needed L d s) = s"
          by (simp add: instantiate_day_if_needed_def Let_def)
        then show ?thesis by (rule same)
      next
        case (Inr rows)
        with t f True have i: "instantiate_day_if_needed L d s = (Inr (), s\<lparr>day_item := rows\<rparr>)"
          by (simp add: instantiate_day_if_needed_def Let_def)
        from insert_all_extends[OF Inr] obtain extra where
          e: "rows = day_item s @ extra" "list_all (fresh_for (isoformat d)) extra"
          by blast
        show ?thesis
        proof (cases "extra = []")
          case True
          with e i have "snd (instantiate_day_if_needed L d s) = s" by simp
          then show ?thesis by (rule same)
        next
          case False
          with e i show ?thesis by (intro added[of extra]) simp_all
        qed
      qed
    qed
  qed
qed

lemma instantiate_noop:
  assumes "\<exists>r \<in> set (day_item s). day r = isoformat d"
  shows "instantiate_day_if_needed L d s = (Inr (), s)"
proof -
  from assms have "filter (\<lambda>r. day r = isoformat d) (day_item s) \<noteq> []"
    by (simp add: filter_empty_conv)
  then show ?thesis by (simp add: instantiate_day_if_needed_def)
qed

lemma instantiate_twice:
  "instantiate_day_if_needed L d (snd (instantiate_day_if_needed L d s))
     = instantiate_day_if_needed L d s"
proof (cases rule: instantiate_cases[of L d s])
  case same
  then show ?thesis by simp
next
  case (added extra)
  then obtain r where "r \<in> set extra" and "day r = isoformat d"
    by (cases extra) (auto simp: fresh_for_def)
  then have "\<exists>r \<in> set (day_item (s\<lparr>day_item := day_item s @ extra\<rparr>)). day r = isoformat d"
    by auto
  from instantiate_noop[OF this, of L] added(3) show ?thesis by simp
qed

lemma get_day_items_twice:
  "get_day_items L d (snd (get_day_items L d s)) = get_day_items L d s"
proof -
  have s: "snd (get_day_items L d s) = snd (instantiate_day_if_needed L d s)" for s
    by (cases "instantiate_day_if_needed L d s" rule: prod.exhaust; rename_tac a b; case_tac a)
      (simp_all add: get_day_items_def)
  show ?thesis
    unfolding s unfolding get_day_items_def instantiate_twice ..
qed

lemma get_day_twice: "get_day L d (snd (get_day L d s)) = get_day L d s"
proof -
  have s: "snd (get_day L d s) = snd (get_day_items L d s)" for s
    by (cases "get_day_items L d s" rule: prod.exhaust; rename_tac a b; case_tac a)
      (simp_all add: get_day_def)
  show ?thesis
    unfolding s unfolding get_day_def get_day_items_twice ..
qed

text \<open>
  C5: a second \<open>instantiate_day_if_needed\<close> or \<open>get_day\<close> for the same day returns what the
  first returned and leaves the store exactly as the first left it, so no DayItem row is
  added or changed. When the day has a row, instantiating is a no-op.
\<close>

theorem instantiate_idempotent:
  "instantiate_day_if_needed L d (snd (instantiate_day_if_needed L d s))
     = instantiate_day_if_needed L d s
   \<and> get_day L d (snd (get_day L d s)) = get_day L d s
   \<and> ((\<exists>r \<in> set (day_item s). day r = isoformat d) \<longrightarrow>
        instantiate_day_if_needed L d s = (Inr (), s))"
  using instantiate_twice get_day_twice instantiate_noop by blast

theorem instantiate_idempotent_witness:
  "(\<exists>r \<in> set (day_item store1). day r = isoformat day1)
   \<and> instantiate_day_if_needed lib0 day1 store1 = (Inr (), store1)
   \<and> get_day lib0 day1 (snd (get_day lib0 day1 (initialize empty_store)))
       = get_day lib0 day1 (initialize empty_store)"
proof -
  have a: "\<exists>r \<in> set (day_item store1). day r = isoformat day1"
    by (simp add: store1_def iso_day1 new_row_def)
  show ?thesis
    using instantiate_idempotent[of lib0 day1 store1]
      instantiate_idempotent[of lib0 day1 "initialize empty_store"] a
    by blast
qed

section \<open>The invariant of DayItem rows\<close>

lemma fresh_row_ok: "fresh_for k r \<Longrightarrow> row_ok r"
  by (simp add: fresh_for_def row_ok_def)

lemma rows_ok_instantiate:
  assumes "rows_ok s"
  shows "rows_ok (snd (instantiate_day_if_needed L d s))"
proof (cases rule: instantiate_cases[of L d s])
  case same
  with assms show ?thesis by simp
next
  case (added extra)
  from added(2) have "list_all row_ok extra"
    by (induction extra) (auto intro: fresh_row_ok)
  with assms added(3) show ?thesis by (simp add: rows_ok_def)
qed

lemma set_columns_ok: "\<not> (chk \<and> strip ev = []) \<Longrightarrow> row_ok (set_columns now chk ev wh r)"
  by (simp add: row_ok_def set_columns_fields strip_idem)

lemma rows_ok_map:
  "list_all row_ok rows \<Longrightarrow> (\<And>r. row_ok (f r)) \<Longrightarrow>
   list_all row_ok (map (\<lambda>r. if P r then f r else r) rows)"
  by (induction rows) simp_all

lemma rows_ok_set_item_checked:
  assumes "rows_ok s"
  shows "rows_ok (snd (set_item_checked now d i chk ev wh s))"
proof (cases "chk \<and> strip ev = []")
  case True
  with assms show ?thesis by (simp add: set_item_checked_def)
next
  case False
  show ?thesis
  proof (cases "is_day_closed s d")
    case True
    with assms show ?thesis by (simp add: set_item_checked_def)
  next
    case op: False
    have "list_all row_ok
            (map (\<lambda>r. if day r = isoformat d \<and> item_id r = i
                       then set_columns now chk ev wh r else r) (day_item s))"
      using assms set_columns_ok[OF False]
      by (intro rows_ok_map) (simp_all add: rows_ok_def)
    with False op show ?thesis
      by (auto simp: set_item_checked_def rows_ok_def)
  qed
qed

lemma day_item_save: "day_item (snd (save x s)) = day_item s"
  by (cases "validate_template x"; cases "template s") (simp_all add: save_def)

lemma rows_ok_perform:
  assumes "rows_ok s"
  shows "rows_ok (perform L now c s)"
proof (cases c)
  case Initialize
  with assms show ?thesis
    by (simp add: rows_ok_def initialize_def init_schema_def ensure_default_def)
next
  case (GetDay d)
  have "snd (get_day L d s) = snd (instantiate_day_if_needed L d s)"
    by (cases "instantiate_day_if_needed L d s" rule: prod.exhaust; rename_tac a b; case_tac a)
      (simp_all add: get_day_def get_day_items_def)
  with GetDay rows_ok_instantiate[OF assms, of L d] show ?thesis by simp
next
  case (MarkItem d i chk ev wh)
  with rows_ok_set_item_checked[OF assms, of now d i chk ev wh] show ?thesis
    by (simp add: mark_item_def)
next
  case (CloseDay d)
  with assms show ?thesis by (simp add: rows_ok_def day_item_close)
next
  case (ReopenDay d)
  with assms show ?thesis by (simp add: rows_ok_def day_item_reopen)
next
  case (GetCheckedDays a b)
  with assms show ?thesis by simp
next
  case LoadTemplate
  with assms show ?thesis by simp
next
  case (SaveTemplate x)
  with assms show ?thesis by (simp add: rows_ok_def save_template_def day_item_save)
next
  case ResetTemplate
  have "day_item (snd (reset_template s)) = day_item s"
    using day_item_save[of "JList DEFAULT_TEMPLATE" s]
    by (cases "save (JList DEFAULT_TEMPLATE) s" rule: prod.exhaust; rename_tac a b; case_tac a)
      (simp_all add: reset_template_def)
  with ResetTemplate assms show ?thesis by (simp add: rows_ok_def)
qed

text \<open>
  C6: every DayItem row satisfies the invariant (a checked row has evidence that is not
  empty after trimming and a \<open>checked_at\<close>; an unchecked row has no \<open>checked_at\<close>) in the
  empty store, and day instantiation, \<open>set_item_checked\<close> and every call of the service
  keep it, whether they return or raise.
\<close>

theorem row_invariant_preserved:
  assumes "rows_ok s"
  shows "rows_ok (snd (instantiate_day_if_needed L d s))
       \<and> rows_ok (snd (set_item_checked now d i chk ev wh s))
       \<and> rows_ok (perform L now c s)
       \<and> rows_ok empty_store"
  using rows_ok_instantiate[OF assms] rows_ok_set_item_checked[OF assms]
    rows_ok_perform[OF assms]
  by (simp add: rows_ok_def empty_store_def)

theorem row_invariant_preserved_witness:
  "rows_ok store1
   \<and> rows_ok (perform lib0 now1 (MarkItem day1 ''progress'' True '' did X '' []) store1)
   \<and> has_row (isoformat day1) ''progress''
        (filter checked
          (day_item (perform lib0 now1 (MarkItem day1 ''progress'' True '' did X '' []) store1)))"
proof -
  have a: "rows_ok store1"
    by (simp add: rows_ok_def store1_def new_row_def row_ok_def)
  have b: "has_row (isoformat day1) ''progress''
        (filter checked
          (day_item (perform lib0 now1 (MarkItem day1 ''progress'' True '' did X '' []) store1)))"
    by code_simp
  show ?thesis
    using row_invariant_preserved[OF a, where L = lib0 and now = now1
        and c = "MarkItem day1 ''progress'' True '' did X '' []"] a b
    by blast
qed

section \<open>The first access to a day\<close>

text \<open>
  C2, as claimed: for every valid template stored at the first access, \<open>get_day\<close> returns
  exactly the lines of its flattening. The template below is of the data model, with ids
  unique at each level; it is stored as it is; its flattening has three lines, two of them
  with the id \<open>a:1\<close>, and \<open>get_day\<close> returns two rows: the second insert of \<open>a:1\<close> is ignored.
\<close>

theorem get_day_collision_counterexample:
  "template_ok colliding
   \<and> load_template store2 = Inr colliding
   \<and> flatten lib0 colliding
       = Inr [FlatLine ''a'' (JStr ''A'') 1, FlatLine ''a:1'' (JStr ''A1'') 1,
              FlatLine ''a:1'' (JStr ''B'') 1]
   \<and> fst (get_day lib0 day1 store2)
       = Inr (DayState [new_row ''2024-01-01'' ''a'' ''A'' 1,
                        new_row ''2024-01-01'' ''a:1'' ''A1'' 1] False)"
  by code_simp

lemma fresh_row_new_row:
  "fresh_row d l = new_row (isoformat d) (flat_id l) (the_str (flat_text l)) (flat_importance l)"
  by (simp add: fresh_row_def new_row_def)

lemma insert_storable:
  assumes "storable l" and "\<not> has_row (isoformat d) (flat_id l) rows"
  shows "insert_or_ignore (isoformat d) l rows = Inr (rows @ [fresh_row d l])"
proof -
  from assms(1) obtain s where "flat_text l = JStr s" and "fits_int64 (flat_importance l)"
    by (auto simp: storable_def)
  with assms(2) show ?thesis
    by (simp add: insert_or_ignore_def bind_text_def bind_int_def fresh_row_new_row the_str_def)
qed

lemma has_row_snoc:
  "has_row k i (rows @ [r]) = (has_row k i rows \<or> (day r = k \<and> item_id r = i))"
  by (auto simp: has_row_def)

lemma insert_all_fresh:
  assumes "list_all storable ls" and "distinct (map flat_id ls)"
    and "list_all (\<lambda>l. \<not> has_row (isoformat d) (flat_id l) rows) ls"
  shows "insert_all (isoformat d) ls rows = Inr (rows @ map (fresh_row d) ls)"
  using assms
proof (induction ls arbitrary: rows)
  case Nil
  then show ?case by simp
next
  case (Cons l ls)
  then have st: "storable l" and nr: "\<not> has_row (isoformat d) (flat_id l) rows" by simp_all
  have step: "insert_or_ignore (isoformat d) l rows = Inr (rows @ [fresh_row d l])"
    using st nr by (rule insert_storable)
  have "list_all (\<lambda>l'. \<not> has_row (isoformat d) (flat_id l') (rows @ [fresh_row d l])) ls"
    using Cons.prems(2,3)
    by (auto simp: list_all_iff has_row_snoc fresh_row_def)
  with Cons.IH[of "rows @ [fresh_row d l]"] Cons.prems(1,2)
  have "insert_all (isoformat d) ls (rows @ [fresh_row d l])
          = Inr ((rows @ [fresh_row d l]) @ map (fresh_row d) ls)"
    by simp
  with step show ?case by simp
qed

lemma no_rows_no_has_row:
  "filter (\<lambda>r. day r = k) rows = [] \<Longrightarrow> \<not> has_row k i rows"
  by (auto simp: has_row_def filter_empty_conv)

lemma select_day_fresh:
  assumes "filter (\<lambda>r. day r = isoformat d) rows = []"
  shows "select_day (isoformat d) (rows @ map (fresh_row d) ls)
           = sort_key item_id (map (fresh_row d) ls)"
proof -
  have "filter (\<lambda>r. day r = isoformat d) (map (fresh_row d) ls) = map (fresh_row d) ls"
    by (induction ls) (simp_all add: fresh_row_def)
  with assms show ?thesis by (simp add: select_day_def)
qed

lemma is_day_closed_day_item: "is_day_closed (s\<lparr>day_item := rows\<rparr>) d = is_day_closed s d"
  by (simp add: is_day_closed_def)

lemma is_str_text:
  assumes "is_str (map_of d ''text'')"
  shows "\<exists>s. dict_get d ''text'' JNull = JStr s"
  using is_str_cases[OF assms] by (auto simp: dict_get_def)

lemma expand_texts:
  assumes "item_ok item"
  shows "list_all (\<lambda>l. \<exists>s. flat_text l = JStr s) (expand item)"
proof -
  from assms obtain d where d: "item = JDict d"
    and tx: "is_str (map_of d ''text'')"
    and so: "list_all sub_ok (the_list (dict_get d ''subitems'' (JList [])))"
    by (rule item_ok_cases)
  have sub: "\<exists>s. flat_text (sub_line d (the_dict sub)) = JStr s" if "sub_ok sub" for sub
    using that is_str_text by (elim sub_ok_cases) (simp add: sub_line_def the_dict_def)
  have "list_all (\<lambda>l. \<exists>s. flat_text l = JStr s)
          (map (\<lambda>sub. sub_line d (the_dict sub)) (the_list (dict_get d ''subitems'' (JList []))))"
    using so sub by (simp add: list_all_iff)
  with is_str_text[OF tx] show ?thesis
    by (simp add: expand_def d the_dict_def item_line_def)
qed

lemma flatten_spec_texts:
  "template_ok t \<Longrightarrow> list_all (\<lambda>l. \<exists>s. flat_text l = JStr s) (flatten_spec t)"
  unfolding template_ok_def flatten_spec_def
  by (induction t) (simp_all add: expand_texts)

text \<open>
  C2, amended: let the stored template be of the data model, with importances that fit a
  64-bit integer and with pairwise distinct ids of its flattened lines, and let the day
  have no row yet. Then \<open>get_day\<close> inserts one row for each line of the flattening, with the
  line's id, text and importance, unchecked, with empty evidence and reason and no
  \<open>checked_at\<close>, and returns exactly these rows, ordered by \<open>item_id\<close>.
\<close>

theorem get_day_first_access:
  assumes "template s = Some (json_dumps (JList t))"
    and "template_ok t"
    and "list_all (\<lambda>l. fits_int64 (flat_importance l)) (flatten_spec t)"
    and "distinct (map flat_id (flatten_spec t))"
    and "filter (\<lambda>r. day r = isoformat d) (day_item s) = []"
  shows "flatten L t = Inr (flatten_spec t)
       \<and> get_day L d s =
           (Inr (DayState (sort_key item_id (map (fresh_row d) (flatten_spec t)))
                   (is_day_closed s d)),
            s\<lparr>day_item := day_item s @ map (fresh_row d) (flatten_spec t)\<rparr>)
       \<and> sorted (map item_id (sort_key item_id (map (fresh_row d) (flatten_spec t))))
       \<and> set (sort_key item_id (map (fresh_row d) (flatten_spec t)))
           = set (map (fresh_row d) (flatten_spec t))
       \<and> length (sort_key item_id (map (fresh_row d) (flatten_spec t)))
           = length (flatten_spec t)"
proof -
  let ?ls = "flatten_spec t"
  have ld: "load s = Inr t"
    using assms(1) by (simp add: load_def load_try_def json_dumps_def)
  have fl: "flatten L t = Inr ?ls"
    using assms(2) by (rule flatten_refines)
  have st: "list_all storable ?ls"
    using flatten_spec_texts[OF assms(2)] assms(3)
    by (simp add: list_all_iff storable_def)
  have nr: "list_all (\<lambda>l. \<not> has_row (isoformat d) (flat_id l) (day_item s)) ?ls"
    using no_rows_no_has_row[OF assms(5)] by (simp add: list_all_iff)
  have ins: "insert_all (isoformat d) ?ls (day_item s)
               = Inr (day_item s @ map (fresh_row d) ?ls)"
    using st assms(4) nr by (rule insert_all_fresh)
  have inst: "instantiate_day_if_needed L d s
                = (Inr (), s\<lparr>day_item := day_item s @ map (fresh_row d) ?ls\<rparr>)"
    using assms(5) ld fl ins by (simp add: instantiate_day_if_needed_def Let_def)
  have gd: "get_day L d s =
           (Inr (DayState (sort_key item_id (map (fresh_row d) ?ls)) (is_day_closed s d)),
            s\<lparr>day_item := day_item s @ map (fresh_row d) ?ls\<rparr>)"
    using select_day_fresh[OF assms(5), of ?ls]
    by (simp add: get_day_def get_day_items_def inst is_day_closed_day_item)
  have so: "sorted (map item_id (sort_key item_id (map (fresh_row d) ?ls)))"
    by (rule sorted_sort_key)
  show ?thesis
    using fl gd so by simp
qed

lemma default_lines:
  "map (fresh_row day1) (flatten_spec DEFAULT_TEMPLATE)
     = [new_row ''2024-01-01'' ''progress'' ''Progress: move a project forward'' 3,
        new_row ''2024-01-01'' ''care'' ''Care/Connection: serve or connect'' 2,
        new_row ''2024-01-01'' ''maintenance'' ''Maintenance: body / admin / environment'' 2]"
  by code_simp

lemma default_sorted:
  "sort_key item_id (map (fresh_row day1) (flatten_spec DEFAULT_TEMPLATE))
     = [new_row ''2024-01-01'' ''care'' ''Care/Connection: serve or connect'' 2,
        new_row ''2024-01-01'' ''maintenance'' ''Maintenance: body / admin / environment'' 2,
        new_row ''2024-01-01'' ''progress'' ''Progress: move a project forward'' 3]"
  by code_simp

theorem get_day_first_access_witness:
  "template (initialize empty_store) = Some (json_dumps (JList DEFAULT_TEMPLATE))
   \<and> template_ok DEFAULT_TEMPLATE
   \<and> list_all (\<lambda>l. fits_int64 (flat_importance l)) (flatten_spec DEFAULT_TEMPLATE)
   \<and> distinct (map flat_id (flatten_spec DEFAULT_TEMPLATE))
   \<and> filter (\<lambda>r. day r = isoformat day1) (day_item (initialize empty_store)) = []
   \<and> get_day lib0 day1 (initialize empty_store) =
       (Inr (DayState
          [new_row ''2024-01-01'' ''care'' ''Care/Connection: serve or connect'' 2,
           new_row ''2024-01-01'' ''maintenance'' ''Maintenance: body / admin / environment'' 2,
           new_row ''2024-01-01'' ''progress'' ''Progress: move a project forward'' 3]
          False),
        store1)"
proof -
  have a: "template (initialize empty_store) = Some (json_dumps (JList DEFAULT_TEMPLATE))"
    by (simp add: initialize_def init_schema_def ensure_default_def empty_store_def)
  have b: "template_ok DEFAULT_TEMPLATE" by code_simp
  have c: "list_all (\<lambda>l. fits_int64 (flat_importance l)) (flatten_spec DEFAULT_TEMPLATE)"
    by code_simp
  have d: "distinct (map flat_id (flatten_spec DEFAULT_TEMPLATE))" by code_simp
  have e: "filter (\<lambda>r. day r = isoformat day1) (day_item (initialize empty_store)) = []"
    by (simp add: initialize_def init_schema_def ensure_default_def empty_store_def)
  have f: "is_day_closed (initialize empty_store) day1 = False"
    by (simp add: is_day_closed_def initialize_def init_schema_def ensure_default_def
          empty_store_def)
  have g: "(initialize empty_store)\<lparr>day_item := day_item (initialize empty_store)
              @ map (fresh_row day1) (flatten_spec DEFAULT_TEMPLATE)\<rparr> = store1"
    unfolding default_lines
    by (simp add: initialize_def init_schema_def ensure_default_def empty_store_def store1_def
          json_dumps_def)
  show ?thesis
    using get_day_first_access[OF a b c d e, of lib0] a b c d e
    unfolding default_sorted f g by blast
qed

end
